theory Spec2Isabelle
  imports Complex_Main "HOL-Library.Word"
begin

section \<open>JavaScript values\<close>

text \<open>
  A JavaScript string is a sequence of UTF-16 code units; \<open>length\<close>, \<open>includes\<close> and
  \<open>===\<close> work on code units. \<open>utf16\<close> writes an ASCII literal as such a sequence.
  A field that may be \<open>null\<close> or \<open>undefined\<close> is an \<open>option\<close>.
\<close>

type_synonym js_string = "16 word list"

definition utf16 :: "string \<Rightarrow> js_string" where
  "utf16 s = map (\<lambda>c. of_nat (of_char c)) s"

text \<open>
  \<open>String.prototype.toLowerCase\<close>, on the ASCII letters: \<open>A\<close>..\<open>Z\<close> (0x41..0x5A) move to
  \<open>a\<close>..\<open>z\<close>, every other code unit stays (the Hangul syllables of the body table have
  no case).
\<close>

definition lowerUnit :: "16 word \<Rightarrow> 16 word" where
  "lowerUnit c = (if 0x41 \<le> c \<and> c \<le> 0x5A then c + 0x20 else c)"

definition toLowerCase :: "js_string \<Rightarrow> js_string" where
  "toLowerCase s = map lowerUnit s"

text \<open>\<open>s.includes(t)\<close>: \<open>t\<close> occurs in \<open>s\<close> as a contiguous run of code units.\<close>

fun startsWith :: "js_string \<Rightarrow> js_string \<Rightarrow> bool" where
  "startsWith s [] = True"
| "startsWith [] (t # ts) = False"
| "startsWith (c # cs) (t # ts) = (c = t \<and> startsWith cs ts)"

fun includes_str :: "js_string \<Rightarrow> js_string \<Rightarrow> bool" where
  "includes_str [] t = (t = [])"
| "includes_str (c # cs) t = (startsWith (c # cs) t \<or> includes_str cs t)"

text \<open>A thrown JavaScript value, with its message.\<close>

datatype exception = Exception string

section \<open>StarData: the body table and the catalogue\<close>

record body_info =
  b_id :: js_string
  b_proper :: js_string
  b_name :: js_string
  b_mag :: real

text \<open>
  \<open>solarSystemBodies\<close>. The proper names are Korean; they are written by their code
  units (U+D0DC U+C591 is the Sun, U+B2EC the Moon, and so on down the table).
\<close>

definition solarSystemBodies :: "body_info list" where
  "solarSystemBodies =
    [\<lparr>b_id = utf16 ''sun'', b_proper = [0xD0DC, 0xC591], b_name = utf16 ''Sun'', b_mag = -26.7\<rparr>,
     \<lparr>b_id = utf16 ''moon'', b_proper = [0xB2EC], b_name = utf16 ''Moon'', b_mag = -12.6\<rparr>,
     \<lparr>b_id = utf16 ''mercury'', b_proper = [0xC218, 0xC131], b_name = utf16 ''Mercury'', b_mag = -0.5\<rparr>,
     \<lparr>b_id = utf16 ''venus'', b_proper = [0xAE08, 0xC131], b_name = utf16 ''Venus'', b_mag = -4.4\<rparr>,
     \<lparr>b_id = utf16 ''mars'', b_proper = [0xD654, 0xC131], b_name = utf16 ''Mars'', b_mag = 0.7\<rparr>,
     \<lparr>b_id = utf16 ''jupiter'', b_proper = [0xBAA9, 0xC131], b_name = utf16 ''Jupiter'', b_mag = -2.2\<rparr>,
     \<lparr>b_id = utf16 ''saturn'', b_proper = [0xD1A0, 0xC131], b_name = utf16 ''Saturn'', b_mag = 0.5\<rparr>,
     \<lparr>b_id = utf16 ''uranus'', b_proper = [0xCC9C, 0xC655, 0xC131], b_name = utf16 ''Uranus'', b_mag = 5.6\<rparr>,
     \<lparr>b_id = utf16 ''neptune'', b_proper = [0xD574, 0xC655, 0xC131], b_name = utf16 ''Neptune'', b_mag = 7.8\<rparr>,
     \<lparr>b_id = utf16 ''pluto'', b_proper = [0xBA85, 0xC655, 0xC131], b_name = utf16 ''Pluto'', b_mag = 14.3\<rparr>]"

text \<open>The constants of \<open>Astronomy.Body\<close> that \<open>getBodyForName\<close> can return.\<close>

datatype body = Sun | Moon | Mercury | Venus | Mars | Jupiter | Saturn | Uranus | Neptune | Pluto

text \<open>\<open>getBodyForName\<close>: the switch on the lower-cased name; \<open>None\<close> is its \<open>null\<close>.\<close>

definition getBodyForName :: "js_string \<Rightarrow> body option" where
  "getBodyForName name =
    (let bodyName = toLowerCase name in
     if bodyName = utf16 ''sun'' then Some Sun
     else if bodyName = utf16 ''moon'' then Some Moon
     else if bodyName = utf16 ''mercury'' then Some Mercury
     else if bodyName = utf16 ''venus'' then Some Venus
     else if bodyName = utf16 ''mars'' then Some Mars
     else if bodyName = utf16 ''jupiter'' then Some Jupiter
     else if bodyName = utf16 ''saturn'' then Some Saturn
     else if bodyName = utf16 ''uranus'' then Some Uranus
     else if bodyName = utf16 ''neptune'' then Some Neptune
     else if bodyName = utf16 ''pluto'' then Some Pluto
     else None)"

text \<open>
  \<open>Astronomy.Observer\<close> and the result of \<open>Astronomy.Equator\<close>. A date is its time value
  in milliseconds.
\<close>

record observer =
  latitude :: real
  longitude :: real
  height :: real

record equatorial =
  ra :: real
  dec :: real

type_synonym js_date = int

text \<open>
  \<open>Astronomy.Equator(body, date, observer, ofdate, aberration)\<close> belongs to the
  astronomy-engine package and is a parameter of the model: it returns the coordinates
  or throws.
\<close>

type_synonym ephemeris = "body \<Rightarrow> js_date \<Rightarrow> observer \<Rightarrow> bool \<Rightarrow> bool \<Rightarrow> exception + equatorial"

text \<open>
  \<open>calculateSolarSystemBodyPosition\<close>. \<open>Inl\<close> would be an exception leaving the function,
  \<open>Inr None\<close> is \<open>null\<close>. The two guards come first, observer before name
  (\<open>!bodyName\<close> holds of \<open>null\<close> and of the empty string); the body of the \<open>try\<close> is
  \<open>positionTry\<close>, and the \<open>catch\<close> turns what it throws into \<open>null\<close>.
\<close>

definition positionTry :: "ephemeris \<Rightarrow> js_string \<Rightarrow> observer \<Rightarrow> js_date \<Rightarrow> exception + equatorial option" where
  "positionTry Equator bodyName obs date =
    (case getBodyForName bodyName of
       None \<Rightarrow> Inr None
     | Some body \<Rightarrow>
        (case Equator body date obs True True of
           Inl e \<Rightarrow> Inl e
         | Inr equ \<Rightarrow> Inr (Some \<lparr>ra = ra equ, dec = dec equ\<rparr>)))"

definition calculateSolarSystemBodyPosition ::
    "ephemeris \<Rightarrow> js_string option \<Rightarrow> observer option \<Rightarrow> js_date \<Rightarrow> exception + equatorial option" where
  "calculateSolarSystemBodyPosition Equator bodyName observer date =
    (case observer of
       None \<Rightarrow> Inr None
     | Some obs \<Rightarrow>
        (case bodyName of
           None \<Rightarrow> Inr None
         | Some n \<Rightarrow>
            if n = [] then Inr None
            else (case positionTry Equator n obs date of
                    Inl error \<Rightarrow> Inr None
                  | Inr position \<Rightarrow> Inr position)))"

text \<open>
  A row of the catalogue \<open>hygdata_v3.json\<close>, as \<open>Convert.js\<close> writes it: \<open>id\<close> and \<open>mag\<close>
  are \<open>null\<close> when the source column does not parse, \<open>proper\<close> and \<open>name\<close> when it is
  empty. The catalogue itself is an asset outside the sources and a parameter of the model.
\<close>

record star =
  s_id :: "int option"
  s_proper :: "js_string option"
  s_name :: "js_string option"
  s_ra :: real
  s_dec :: real
  s_mag :: "real option"

text \<open>A search result. Its \<open>id\<close> is a string for a body, and for a star whatever
  \<open>star.id || star.proper || star.name\<close> yields.\<close>

datatype celestial_id = IdNumber int | IdString js_string | IdNull

record celestial =
  c_id :: celestial_id
  c_proper :: "js_string option"
  c_name :: "js_string option"
  c_mag :: "real option"
  c_ra :: real
  c_dec :: real
  isSolarSystemBody :: bool

section \<open>searchCelestial\<close>

text \<open>
  Pass 1, \<open>solarSystemResults\<close>: the bodies whose proper or canonical name contains the
  lower-cased query, each with its position of the moment \<open>now\<close>; a body whose position
  is \<open>null\<close> (or whose computation throws) is dropped.
\<close>

definition bodyResult :: "ephemeris \<Rightarrow> js_date \<Rightarrow> observer option \<Rightarrow> body_info \<Rightarrow> celestial option" where
  "bodyResult Equator now observer body =
    (case calculateSolarSystemBodyPosition Equator (Some (b_name body)) observer now of
       Inl error \<Rightarrow> None
     | Inr None \<Rightarrow> None
     | Inr (Some realTimePosition) \<Rightarrow>
         Some \<lparr>c_id = IdString (b_id body), c_proper = Some (b_proper body),
               c_name = Some (b_name body), c_mag = Some (b_mag body),
               c_ra = ra realTimePosition, c_dec = dec realTimePosition,
               isSolarSystemBody = True\<rparr>)"

definition solarSystemResults :: "ephemeris \<Rightarrow> js_date \<Rightarrow> observer option \<Rightarrow> js_string \<Rightarrow> celestial list" where
  "solarSystemResults Equator now observer lowerText =
    List.map_filter (bodyResult Equator now observer)
      (filter (\<lambda>body. includes_str (toLowerCase (b_proper body)) lowerText
                     \<or> includes_str (toLowerCase (b_name body)) lowerText)
         solarSystemBodies)"

text \<open>
  Pass 2, \<open>starResults\<close>. \<open>isSolarSystemBodyItem\<close> is the \<open>some\<close> of the filter: the
  row's name against a body's name, or the row's proper name against a body's proper name,
  both lower-cased; an absent field (\<open>item.name?.toLowerCase()\<close> is \<open>undefined\<close>) equals
  no string.
\<close>

definition isSolarSystemBodyItem :: "star \<Rightarrow> bool" where
  "isSolarSystemBodyItem item =
    list_ex (\<lambda>body. Some (toLowerCase (b_name body)) = map_option toLowerCase (s_name item)
                   \<or> Some (toLowerCase (b_proper body)) = map_option toLowerCase (s_proper item))
      solarSystemBodies"

definition lowerOrEmpty :: "js_string option \<Rightarrow> js_string" where
  "lowerOrEmpty field = (case field of None \<Rightarrow> [] | Some s \<Rightarrow> toLowerCase s)"

definition starMatches :: "js_string \<Rightarrow> star \<Rightarrow> bool" where
  "starMatches lowerText item =
    (if isSolarSystemBodyItem item then False
     else includes_str (lowerOrEmpty (s_proper item)) lowerText
        \<or> includes_str (lowerOrEmpty (s_name item)) lowerText)"

definition starId :: "star \<Rightarrow> celestial_id" where
  "starId star =
    (case s_id star of
       Some n \<Rightarrow> if n \<noteq> 0 then IdNumber n else
         (case s_proper star of
            Some p \<Rightarrow> if p \<noteq> [] then IdString p
                      else (case s_name star of Some m \<Rightarrow> IdString m | None \<Rightarrow> IdNull)
          | None \<Rightarrow> (case s_name star of Some m \<Rightarrow> IdString m | None \<Rightarrow> IdNull))
     | None \<Rightarrow>
         (case s_proper star of
            Some p \<Rightarrow> if p \<noteq> [] then IdString p
                      else (case s_name star of Some m \<Rightarrow> IdString m | None \<Rightarrow> IdNull)
          | None \<Rightarrow> (case s_name star of Some m \<Rightarrow> IdString m | None \<Rightarrow> IdNull)))"

definition starResult :: "star \<Rightarrow> celestial" where
  "starResult star =
    \<lparr>c_id = starId star, c_proper = s_proper star, c_name = s_name star, c_mag = s_mag star,
     c_ra = s_ra star, c_dec = s_dec star, isSolarSystemBody = False\<rparr>"

definition starResults :: "star list \<Rightarrow> js_string \<Rightarrow> celestial list" where
  "starResults starData lowerText = map starResult (take 20 (filter (starMatches lowerText) starData))"

text \<open>
  The comparator of the final sort is \<open>(a.mag || 100) - (b.mag || 100)\<close>; \<open>magOr100\<close> is
  its key \<open>mag || 100\<close>, where \<open>||\<close> takes the right operand for \<open>null\<close> and for the
  number 0. \<open>Array.prototype.sort\<close> is stable, as \<open>sort_key\<close> is.
\<close>

definition magOr100 :: "celestial \<Rightarrow> real" where
  "magOr100 a = (case c_mag a of None \<Rightarrow> 100 | Some m \<Rightarrow> if m = 0 then 100 else m)"

definition searchCelestial ::
    "ephemeris \<Rightarrow> star list \<Rightarrow> js_date \<Rightarrow> js_string option \<Rightarrow> observer option \<Rightarrow> celestial list" where
  "searchCelestial Equator starData now query observer =
    (case query of
       None \<Rightarrow> []
     | Some q \<Rightarrow>
        if length q < 2 then []
        else if observer = None then []
        else
          (let lowerText = toLowerCase q;
               results = solarSystemResults Equator now observer lowerText
                         @ starResults starData lowerText
           in take 15 (sort_key magOr100 results)))"

section \<open>Numbers\<close>

text \<open>
  A JavaScript number is an IEEE 754 double. The model writes a finite number as the real
  it denotes; comparison, \<open>Math.abs\<close>, \<open>Math.min\<close> and the remainder \<open>%\<close> are exact on
  doubles. The sums and the quotient of the moving average and the subtractions of the
  hysteresis gate are written with their rounding (\<open>double_add\<close>, \<open>double_div\<close>,
  \<open>double_sub\<close>): what is asked of the filter is an equation between computed numbers,
  and the gate compares a computed difference with a threshold. The other arithmetic is
  written with the exact operation.

  \<open>round_double\<close> is rounding to the nearest double, ties to the even significand:
  \<open>exponent a\<close> is the binary exponent of \<open>a > 0\<close>, between -1022 (also for the subnormal
  numbers) and 1023, and the 53-bit significand \<open>a / 2^(exponent a - 52)\<close> is rounded to an
  integer. Overflow to \<open>Infinity\<close> (results of magnitude 2^1024 and more) and \<open>NaN\<close> are
  left out.
\<close>

fun exponentDown :: "nat \<Rightarrow> real \<Rightarrow> int" where
  "exponentDown n a = (if n = 0 \<or> 1 \<le> a then 0 else exponentDown (n - 1) (2 * a) - 1)"

fun exponentUp :: "nat \<Rightarrow> real \<Rightarrow> int" where
  "exponentUp n a = (if n = 0 \<or> a < 2 then 0 else exponentUp (n - 1) (a / 2) + 1)"

definition exponent :: "real \<Rightarrow> int" where
  "exponent a = (if 1 \<le> a then exponentUp 1023 a else exponentDown 1022 a)"

definition roundHalfEven :: "real \<Rightarrow> int" where
  "roundHalfEven q =
    (let n = \<lfloor>q\<rfloor>; r = q - of_int n
     in if r < 1 / 2 then n else if 1 / 2 < r then n + 1 else if even n then n else n + 1)"

definition round_double :: "real \<Rightarrow> real" where
  "round_double x =
    (if x = 0 then 0
     else (let a = \<bar>x\<bar>; u = 2 powi (exponent a - 52)
           in sgn x * of_int (roundHalfEven (a / u)) * u))"

definition double_add :: "real \<Rightarrow> real \<Rightarrow> real" where
  "double_add a b = round_double (a + b)"

definition double_div :: "real \<Rightarrow> real \<Rightarrow> real" where
  "double_div a b = round_double (a / b)"

definition double_sub :: "real \<Rightarrow> real \<Rightarrow> real" where
  "double_sub a b = round_double (a - b)"

text \<open>
  \<open>a % b\<close> is the remainder of the division truncated towards zero; it has the sign of
  \<open>a\<close>. (\<open>b\<close> is 360 wherever the sources use it.)
\<close>

definition trunc :: "real \<Rightarrow> int" where
  "trunc r = (if 0 \<le> r then \<lfloor>r\<rfloor> else \<lceil>r\<rceil>)"

definition js_rem :: "real \<Rightarrow> real \<Rightarrow> real" where
  "js_rem a b = a - b * of_int (trunc (a / b))"

text \<open>\<open>Math.atan2(y, x)\<close>, by the quadrant of \<open>(x, y)\<close>.\<close>

definition atan2 :: "real \<Rightarrow> real \<Rightarrow> real" where
  "atan2 y x =
    (if 0 < x then arctan (y / x)
     else if x < 0 then (if 0 \<le> y then arctan (y / x) + pi else arctan (y / x) - pi)
     else if 0 < y then pi / 2
     else if y < 0 then - pi / 2
     else 0)"

section \<open>App: orientation\<close>

text \<open>
  \<open>applyMovingAverage\<close> pushes the value, shifts the oldest one out when the window is
  exceeded, and returns the mean of the buffer (the \<open>reduce\<close> adds from the left,
  starting at 0). The buffer is changed in place in the source and returned here.
\<close>

definition applyMovingAverage :: "real \<Rightarrow> real list \<Rightarrow> nat \<Rightarrow> real \<times> real list" where
  "applyMovingAverage newValue history windowSize =
    (let pushed = history @ [newValue];
         shifted = (if windowSize < length pushed then tl pushed else pushed);
         sum = foldl double_add 0 shifted
     in (double_div sum (real (length shifted)), shifted))"

text \<open>The filter called once for each value of a stream: the outputs and the last buffer.\<close>

fun feed :: "real list \<Rightarrow> real list \<Rightarrow> nat \<Rightarrow> real list \<times> real list" where
  "feed [] history windowSize = ([], history)"
| "feed (v # vs) history windowSize =
    (let (out, history') = applyMovingAverage v history windowSize;
         (outs, history'') = feed vs history' windowSize
     in (out # outs, history''))"

record az_alt =
  az :: real
  alt :: real

text \<open>The literal \<open>0.3\<close> is the double nearest to three tenths.\<close>

definition changeThreshold :: real where
  "changeThreshold = round_double 0.3"

text \<open>
  \<open>shouldUpdateOrientation\<close>, with \<open>previousAzAlt.current\<close> as an argument;
  \<open>normalizedAzDiff\<close> is its local of that name, as a function of the two azimuths.
  Each of the three subtractions rounds.
\<close>

definition normalizedAzDiff :: "real \<Rightarrow> real \<Rightarrow> real" where
  "normalizedAzDiff newAz previousAz =
    (let azDiff = \<bar>double_sub newAz previousAz\<bar> in min azDiff (double_sub 360 azDiff))"

definition shouldUpdateOrientation :: "az_alt \<Rightarrow> real \<Rightarrow> real \<Rightarrow> bool" where
  "shouldUpdateOrientation previous newAz newAlt =
    (let altDiff = \<bar>double_sub newAlt (alt previous)\<bar>
     in changeThreshold < normalizedAzDiff newAz (az previous) \<or> changeThreshold < altDiff)"

text \<open>
  The state that \<open>tryFuse\<close> reads and writes: the last reading of each sensor, the AHRS
  filter (of the \<open>ahrs\<close> package: its state is a type parameter, its \<open>update\<close> and
  \<open>getEulerAngles\<close> are parameters of \<open>tryFuse\<close>), the two buffers, the pair published
  last, and the React state \<open>azAlt\<close>.
\<close>

record vec3 =
  vx :: real
  vy :: real
  vz :: real

record euler =
  heading :: real
  pitch :: real
  roll :: real

record sensor_history =
  azimuth :: "real list"
  altitude :: "real list"
  windowSize :: nat

record 'f app_state =
  accel :: "vec3 option"
  gyro :: "vec3 option"
  mag :: "vec3 option"
  madgwick :: 'f
  sensorHistory :: sensor_history
  previousAzAlt :: az_alt
  azAlt :: az_alt

text \<open>The axes of the device to the axes of the filter: \<open>(-z, x, -y)\<close>.\<close>

definition remap :: "vec3 \<Rightarrow> vec3" where
  "remap v = \<lparr>vx = - vz v, vy = vx v, vz = - vy v\<rparr>"

text \<open>The two conversions of \<open>tryFuse\<close>, from the Euler angles in radians to degrees.\<close>

definition toAzimuthDegrees :: "real \<Rightarrow> real \<Rightarrow> real" where
  "toAzimuthDegrees headingRad declination =
    (let azDeg = js_rem (headingRad * 180 / pi) 360
     in js_rem (azDeg + declination + 360) 360)"

definition toAltitudeDegrees :: "real \<Rightarrow> real" where
  "toAltitudeDegrees pitchRad = pitchRad * 180 / pi"

text \<open>
  The end of \<open>tryFuse\<close>: when \<open>shouldUpdateOrientation\<close> holds, \<open>setAzAlt\<close> is called with
  the filtered pair and the pair is remembered. The second component of the result is
  the argument of \<open>setAzAlt\<close>, \<open>None\<close> when it is not called.
\<close>

definition publishIfChanged :: "'f app_state \<Rightarrow> real \<Rightarrow> real \<Rightarrow> 'f app_state \<times> az_alt option" where
  "publishIfChanged s filteredAz filteredAlt =
    (if shouldUpdateOrientation (previousAzAlt s) filteredAz filteredAlt
     then (s\<lparr>previousAzAlt := \<lparr>az = filteredAz, alt = filteredAlt\<rparr>,
              azAlt := \<lparr>az = filteredAz, alt = filteredAlt\<rparr>\<rparr>,
           Some \<lparr>az = filteredAz, alt = filteredAlt\<rparr>)
     else (s, None))"

definition tryFuse ::
    "('f \<Rightarrow> vec3 \<Rightarrow> vec3 \<Rightarrow> vec3 \<Rightarrow> 'f) \<Rightarrow> ('f \<Rightarrow> euler) \<Rightarrow> real \<Rightarrow> 'f app_state
      \<Rightarrow> 'f app_state \<times> az_alt option" where
  "tryFuse update getEulerAngles declination s =
    (case (accel s, gyro s, mag s) of
       (Some a, Some g, Some m) \<Rightarrow>
         (let fused = update (madgwick s) (remap g) (remap a) (remap m);
              angles = getEulerAngles fused;
              azDeg = toAzimuthDegrees (heading angles) declination;
              altDeg = toAltitudeDegrees (pitch angles);
              (filteredAz, azimuth') =
                 applyMovingAverage azDeg (azimuth (sensorHistory s)) (windowSize (sensorHistory s));
              (filteredAlt, altitude') =
                 applyMovingAverage altDeg (altitude (sensorHistory s)) (windowSize (sensorHistory s))
          in publishIfChanged
               (s\<lparr>madgwick := fused,
                  sensorHistory := (sensorHistory s)\<lparr>azimuth := azimuth', altitude := altitude'\<rparr>\<rparr>)
               filteredAz filteredAlt)
     | _ \<Rightarrow> (s, None))"

text \<open>The state of the component when it is mounted; the AHRS filter is left abstract.\<close>

definition initialState :: "unit app_state" where
  "initialState =
    \<lparr>accel = None, gyro = None, mag = None, madgwick = (),
     sensorHistory = \<lparr>azimuth = [], altitude = [], windowSize = 5\<rparr>,
     previousAzAlt = \<lparr>az = 0, alt = 0\<rparr>, azAlt = \<lparr>az = 0, alt = 0\<rparr>\<rparr>"

section \<open>App: the direction to the selected object\<close>

record direction_info =
  raDiff :: real
  decDiff :: real
  distance :: real
  angle :: real
  angleDeg :: real

text \<open>
  \<open>calculateDirection\<close> of \<open>App_new.js\<close>, with the states \<open>selectedCelestial\<close> and \<open>eq\<close> as
  arguments; \<open>None\<close> is \<open>null\<close>. \<open>correctRaDiff\<close> is the two corrections of \<open>raDiff\<close>,
  one after the other.
\<close>

definition correctRaDiff :: "real \<Rightarrow> real" where
  "correctRaDiff raDiff0 =
    (let raDiff1 = (if 180 < raDiff0 then raDiff0 - 360 else raDiff0)
     in if raDiff1 < - 180 then raDiff1 + 360 else raDiff1)"

definition calculateDirection :: "celestial option \<Rightarrow> equatorial option \<Rightarrow> direction_info option" where
  "calculateDirection selectedCelestial eq =
    (case (selectedCelestial, eq) of
       (Some target, Some current) \<Rightarrow>
         (let targetRaDeg = c_ra target * 15;
              currentRaDeg = ra current * 15;
              raDiff' = correctRaDiff (targetRaDeg - currentRaDeg);
              decDiff' = c_dec target - dec current;
              distance' = sqrt (raDiff' * raDiff' + decDiff' * decDiff');
              angle' = atan2 decDiff' raDiff'
          in Some \<lparr>raDiff = raDiff', decDiff = decDiff', distance = distance', angle = angle',
                   angleDeg = js_rem (angle' * 180 / pi + 360) 360\<rparr>)
     | _ \<Rightarrow> None)"

section \<open>Sample inputs\<close>

text \<open>
  An observer in Seoul, an ephemeris that answers every request with the same
  coordinates, one that throws on every request (as \<open>Astronomy.Equator\<close> does on a date
  or an observer it rejects), and some catalogue rows.
\<close>

definition seoul :: observer where
  "seoul = \<lparr>latitude = 37.5, longitude = 127, height = 0\<rparr>"

definition fixedEphemeris :: ephemeris where
  "fixedEphemeris body date obs ofdate aberration = Inr \<lparr>ra = 5, dec = 20\<rparr>"

definition failingEphemeris :: ephemeris where
  "failingEphemeris body date obs ofdate aberration = Inl (Exception ''Invalid date'')"

definition sunRow :: star where
  "sunRow = \<lparr>s_id = Some 0, s_proper = Some (utf16 ''Sun''), s_name = None,
              s_ra = 0, s_dec = 0, s_mag = Some (- 26.7)\<rparr>"

definition taeyangRow :: star where
  "taeyangRow = \<lparr>s_id = Some 8, s_proper = None, s_name = Some [0xD0DC, 0xC591],
                  s_ra = 0, s_dec = 0, s_mag = Some (- 26.7)\<rparr>"


definition vegaRow :: star where
  "vegaRow = \<lparr>s_id = Some 90979, s_proper = Some (utf16 ''Vega''), s_name = Some (utf16 ''Alp''),
               s_ra = 18.61564, s_dec = 38.783692, s_mag = Some 0\<rparr>"

definition gacruxRow :: star where
  "gacruxRow = \<lparr>s_id = Some 61084, s_proper = Some (utf16 ''Gacrux''), s_name = Some (utf16 ''Gam''),
                 s_ra = 12.519429, s_dec = - 57.113212, s_mag = Some 1.59\<rparr>"

declare exponentUp.simps [simp del] exponentDown.simps [simp del]

section \<open>The body table and the position of a body\<close>

lemma lowered_body_names:
  "map (\<lambda>b. toLowerCase (b_name b)) solarSystemBodies =
    [utf16 ''sun'', utf16 ''moon'', utf16 ''mercury'', utf16 ''venus'', utf16 ''mars'',
     utf16 ''jupiter'', utf16 ''saturn'', utf16 ''uranus'', utf16 ''neptune'', utf16 ''pluto'']"
  by (simp add: solarSystemBodies_def utf16_def toLowerCase_def lowerUnit_def)

text \<open>The switch of \<open>getBodyForName\<close> knows exactly the canonical names of the table.\<close>

lemma getBodyForName_known:
  "(getBodyForName n \<noteq> None)
    = (\<exists>b \<in> set solarSystemBodies. toLowerCase n = toLowerCase (b_name b))"
proof -
  have "(\<exists>b \<in> set solarSystemBodies. toLowerCase n = toLowerCase (b_name b))
        = (toLowerCase n \<in> set (map (\<lambda>b. toLowerCase (b_name b)) solarSystemBodies))"
    by auto
  also have "\<dots> = (getBodyForName n \<noteq> None)"
    unfolding lowered_body_names by (simp add: getBodyForName_def Let_def)
  finally show ?thesis by simp
qed

text \<open>
  Claim C4, as it holds. \<open>calculateSolarSystemBodyPosition\<close> never throws. It returns
  \<open>null\<close> when the observer is missing, when the name is missing or empty, and when the
  lower-cased name is not the lower-cased canonical name of a body of the table. For a
  known name and a present observer it returns the pair \<open>{ra, dec}\<close> of the ephemeris
  when \<open>Astronomy.Equator\<close> returns, and \<open>null\<close> when it throws.
\<close>

theorem position_null_or_ephemeris_result:
  "(\<exists>r. calculateSolarSystemBodyPosition Equator bodyName observer date = Inr r)
   \<and> (observer = None \<or> bodyName = None \<or> bodyName = Some []
        \<or> (\<exists>n. bodyName = Some n
              \<and> \<not> (\<exists>b \<in> set solarSystemBodies. toLowerCase n = toLowerCase (b_name b)))
       \<longrightarrow> calculateSolarSystemBodyPosition Equator bodyName observer date = Inr None)
   \<and> (\<forall>n obs. bodyName = Some n \<and> observer = Some obs
          \<and> (\<exists>b \<in> set solarSystemBodies. toLowerCase n = toLowerCase (b_name b))
        \<longrightarrow> (\<exists>body. getBodyForName n = Some body
              \<and> calculateSolarSystemBodyPosition Equator bodyName observer date =
                  (case Equator body date obs True True of
                     Inl e \<Rightarrow> Inr None
                   | Inr equ \<Rightarrow> Inr (Some \<lparr>ra = ra equ, dec = dec equ\<rparr>))))"
proof (intro conjI impI allI)
  show "\<exists>r. calculateSolarSystemBodyPosition Equator bodyName observer date = Inr r"
    by (simp add: calculateSolarSystemBodyPosition_def split: option.splits sum.splits)
next
  assume "observer = None \<or> bodyName = None \<or> bodyName = Some []
        \<or> (\<exists>n. bodyName = Some n
              \<and> \<not> (\<exists>b \<in> set solarSystemBodies. toLowerCase n = toLowerCase (b_name b)))"
  then consider "observer = None" | "bodyName = None" | "bodyName = Some []"
    | n where "bodyName = Some n" "getBodyForName n = None"
    using getBodyForName_known by blast
  then show "calculateSolarSystemBodyPosition Equator bodyName observer date = Inr None"
    by cases (simp_all add: calculateSolarSystemBodyPosition_def positionTry_def split: option.splits)
next
  fix n obs
  assume known: "bodyName = Some n \<and> observer = Some obs
          \<and> (\<exists>b \<in> set solarSystemBodies. toLowerCase n = toLowerCase (b_name b))"
  then obtain body where body: "getBodyForName n = Some body"
    using getBodyForName_known [of n] by auto
  have "n \<noteq> []"
    using body by (auto simp: getBodyForName_def toLowerCase_def utf16_def)
  with known body show "\<exists>body. getBodyForName n = Some body
              \<and> calculateSolarSystemBodyPosition Equator bodyName observer date =
                  (case Equator body date obs True True of
                     Inl e \<Rightarrow> Inr None
                   | Inr equ \<Rightarrow> Inr (Some \<lparr>ra = ra equ, dec = dec equ\<rparr>))"
    by (simp add: calculateSolarSystemBodyPosition_def positionTry_def split: sum.splits)
qed

text \<open>The theorem at an unknown name and at a known one, for the observer in Seoul.\<close>

theorem position_null_or_ephemeris_result_witness:
  "calculateSolarSystemBodyPosition fixedEphemeris (Some (utf16 ''Vulcan'')) (Some seoul) 0 = Inr None
   \<and> calculateSolarSystemBodyPosition fixedEphemeris (Some (utf16 ''MARS'')) (Some seoul) 0
       = Inr (Some \<lparr>ra = 5, dec = 20\<rparr>)"
proof -
  have unknown: "\<not> (\<exists>b \<in> set solarSystemBodies. toLowerCase (utf16 ''Vulcan'') = toLowerCase (b_name b))"
    by (simp add: solarSystemBodies_def utf16_def toLowerCase_def lowerUnit_def)
  have known: "\<exists>b \<in> set solarSystemBodies. toLowerCase (utf16 ''MARS'') = toLowerCase (b_name b)"
    by (simp add: solarSystemBodies_def utf16_def toLowerCase_def lowerUnit_def)
  have mars: "getBodyForName (utf16 ''MARS'') = Some Mars"
    by (simp add: getBodyForName_def utf16_def toLowerCase_def lowerUnit_def)
  have first: "calculateSolarSystemBodyPosition fixedEphemeris (Some (utf16 ''Vulcan'')) (Some seoul) 0
      = Inr None"
    using position_null_or_ephemeris_result
            [of fixedEphemeris "Some (utf16 ''Vulcan'')" "Some seoul" 0] unknown
    by blast
  have "\<exists>body. getBodyForName (utf16 ''MARS'') = Some body
      \<and> calculateSolarSystemBodyPosition fixedEphemeris (Some (utf16 ''MARS'')) (Some seoul) 0 =
          (case fixedEphemeris body 0 seoul True True of
             Inl e \<Rightarrow> Inr None
           | Inr equ \<Rightarrow> Inr (Some \<lparr>ra = ra equ, dec = dec equ\<rparr>))"
    using position_null_or_ephemeris_result
            [of fixedEphemeris "Some (utf16 ''MARS'')" "Some seoul" 0] known
    by blast
  with mars have second:
    "calculateSolarSystemBodyPosition fixedEphemeris (Some (utf16 ''MARS'')) (Some seoul) 0
      = Inr (Some \<lparr>ra = 5, dec = 20\<rparr>)"
    by (simp add: fixedEphemeris_def)
  from first second show ?thesis by simp
qed

text \<open>
  Against claim C4 as it is written (a known name always gives a pair): the name
  \<open>Mars\<close> is known, the observer is present, the ephemeris throws, and the result is
  \<open>null\<close>.
\<close>

theorem position_null_known_body_failing_ephemeris:
  "getBodyForName (utf16 ''Mars'') = Some Mars
   \<and> calculateSolarSystemBodyPosition failingEphemeris (Some (utf16 ''Mars'')) (Some seoul) 0
       = Inr None"
  by (simp add: calculateSolarSystemBodyPosition_def positionTry_def failingEphemeris_def
        getBodyForName_def utf16_def toLowerCase_def lowerUnit_def)

section \<open>The search\<close>

text \<open>
  Claim C2. A query shorter than two code units (the empty string too) gives the empty
  sequence for every observer, and so does every query, also an absent one, when the
  observer is absent.
\<close>

theorem searchCelestial_noise_input_empty:
  "(length q < 2 \<longrightarrow> searchCelestial Equator starData now (Some q) observer = [])
   \<and> searchCelestial Equator starData now query None = []"
  by (simp add: searchCelestial_def split: option.splits)

theorem searchCelestial_noise_input_empty_witness:
  "length (utf16 ''a'') < 2
   \<and> searchCelestial fixedEphemeris [vegaRow] 0 (Some (utf16 ''a'')) (Some seoul) = []
   \<and> searchCelestial fixedEphemeris [vegaRow] 0 (Some (utf16 ''mars'')) None = []"
  using searchCelestial_noise_input_empty
          [of "utf16 ''a''" fixedEphemeris "[vegaRow]" 0 "Some seoul" "Some (utf16 ''mars'')"]
  by (simp add: utf16_def)

subsection \<open>Where the results come from\<close>







text \<open>
  The other way round: a row whose name is the proper name of the Sun (U+D0DC U+C591) and
  whose proper name is absent is kept as well.
\<close>

lemma star_pass_keeps_reverse_cross_field_collision:
  "starResults [taeyangRow] (toLowerCase [0xD0DC, 0xC591]) = [starResult taeyangRow]
   \<and> map_option toLowerCase (c_name (starResult taeyangRow))
       = Some (toLowerCase (b_proper (solarSystemBodies ! 0)))"
  by code_simp

subsection \<open>The order of the results\<close>

text \<open>
  What the final sort and slice give: the keys \<open>mag || 100\<close> ascend along the result,
  which has at most 15 elements.
\<close>

lemma searchCelestial_sorted_by_key:
  "sorted (map magOr100 (searchCelestial Equator starData now query observer))"
  by (simp add: searchCelestial_def Let_def take_map [symmetric] sorted_wrt_take
           split: option.splits)

lemma searchCelestial_length:
  "length (searchCelestial Equator starData now query observer) \<le> 15"
  by (simp add: searchCelestial_def Let_def split: option.splits)

text \<open>
  Claim C1 asks for the magnitudes to ascend, a missing magnitude counting as 100. The
  key of the sort is \<open>mag || 100\<close>, which is 100 for the magnitude 0 as well: with Vega
  listed at magnitude 0 and Gacrux at 1.59, the query \<open>ga\<close> returns Gacrux before Vega,
  the magnitudes 1.59 and 0 in this order, for every ephemeris, time and observer.
\<close>

theorem searchCelestial_zero_magnitude_after_fainter:
  "map c_mag (searchCelestial Equator [vegaRow, gacruxRow] now (Some (utf16 ''ga'')) (Some obs))
    = [Some 1.59, Some 0]"
  by code_simp

text \<open>
  Claim C10. In the sequence that \<open>searchCelestial\<close> returns, an entry of magnitude 0 has
  the key 100, the key it would have without a magnitude; every entry before it has a key
  of at most 100 and every entry after it a key of at least 100.
\<close>

theorem zero_magnitude_ranked_as_100:
  assumes "i < length (searchCelestial Equator starData now query observer)"
      and "c_mag (searchCelestial Equator starData now query observer ! i) = Some 0"
  shows "magOr100 (searchCelestial Equator starData now query observer ! i) = 100
       \<and> magOr100 (searchCelestial Equator starData now query observer ! i)
          = magOr100 ((searchCelestial Equator starData now query observer ! i)\<lparr>c_mag := None\<rparr>)
       \<and> (\<forall>j<i. magOr100 (searchCelestial Equator starData now query observer ! j) \<le> 100)
       \<and> (\<forall>j. i < j \<and> j < length (searchCelestial Equator starData now query observer)
             \<longrightarrow> 100 \<le> magOr100 (searchCelestial Equator starData now query observer ! j))"
proof -
  let ?res = "searchCelestial Equator starData now query observer"
  have key: "magOr100 (?res ! i) = 100"
    using assms(2) by (simp add: magOr100_def)
  have srt: "sorted (map magOr100 ?res)"
    by (rule searchCelestial_sorted_by_key)
  have before: "\<forall>j<i. magOr100 (?res ! j) \<le> 100"
  proof (intro allI impI)
    fix j assume "j < i"
    with assms(1) srt have "map magOr100 ?res ! j \<le> map magOr100 ?res ! i"
      by (intro sorted_nth_mono) auto
    with \<open>j < i\<close> assms(1) key show "magOr100 (?res ! j) \<le> 100" by simp
  qed
  have after: "\<forall>j. i < j \<and> j < length ?res \<longrightarrow> 100 \<le> magOr100 (?res ! j)"
  proof (intro allI impI)
    fix j assume j: "i < j \<and> j < length ?res"
    with srt have "map magOr100 ?res ! i \<le> map magOr100 ?res ! j"
      by (intro sorted_nth_mono) auto
    with j key show "100 \<le> magOr100 (?res ! j)" by simp
  qed
  from key before after show ?thesis
    by (simp add: magOr100_def)
qed

text \<open>The theorem on the search for \<open>ga\<close> above: Vega, of magnitude 0, is at index 1.\<close>

theorem zero_magnitude_ranked_as_100_witness:
  "searchCelestial fixedEphemeris [vegaRow, gacruxRow] 0 (Some (utf16 ''ga'')) (Some seoul)
     = [starResult gacruxRow, starResult vegaRow]
   \<and> c_mag (starResult vegaRow) = Some 0
   \<and> magOr100 (starResult vegaRow) = 100
   \<and> magOr100 (starResult gacruxRow) \<le> 100"
proof -
  let ?res = "searchCelestial fixedEphemeris [vegaRow, gacruxRow] 0 (Some (utf16 ''ga'')) (Some seoul)"
  have res: "?res = [starResult gacruxRow, starResult vegaRow]"
    by code_simp
  have index: "1 < length ?res"
    by (simp add: res)
  have zero: "c_mag (?res ! 1) = Some 0"
    unfolding res by (simp add: starResult_def vegaRow_def)
  from zero_magnitude_ranked_as_100 [OF index zero]
  have "magOr100 (?res ! 1) = 100 \<and> (\<forall>j<1. magOr100 (?res ! j) \<le> 100)"
    by blast
  then have "magOr100 (starResult vegaRow) = 100 \<and> magOr100 (starResult gacruxRow) \<le> 100"
    by (simp add: res)
  moreover have "c_mag (starResult vegaRow) = Some 0"
    by (simp add: starResult_def vegaRow_def)
  ultimately show ?thesis
    using res by simp
qed

section \<open>The remainder and the two conversions\<close>

lemma js_rem_small:
  assumes "\<bar>a\<bar> < b"
  shows "js_rem a b = a"
proof -
  have b: "0 < b" using assms by linarith
  have "- 1 < a / b" "a / b < 1"
    using assms b by (simp_all add: field_simps)
  then have "trunc (a / b) = 0"
    unfolding trunc_def by (auto simp: floor_eq_iff ceiling_eq_iff)
  then show ?thesis by (simp add: js_rem_def)
qed

lemma js_rem_nonneg:
  assumes "0 \<le> a" "0 < b"
  shows "0 \<le> js_rem a b \<and> js_rem a b < b"
proof -
  have q: "0 \<le> a / b" using assms by simp
  have "of_int \<lfloor>a / b\<rfloor> \<le> a / b"
    by (rule of_int_floor_le)
  then have lo: "of_int \<lfloor>a / b\<rfloor> * b \<le> a"
    using assms(2) by (simp only: pos_le_divide_eq)
  have "a / b < of_int \<lfloor>a / b\<rfloor> + 1"
    by linarith
  then have hi: "a < (of_int \<lfloor>a / b\<rfloor> + 1) * b"
    using assms(2) by (simp only: pos_divide_less_eq)
  from lo hi show ?thesis
    using q by (simp add: js_rem_def trunc_def algebra_simps)
qed

text \<open>
  Where the conversions stay in range: the azimuth when the sum inside the second
  remainder is not negative, the altitude for a pitch between \<open>-\<pi>/2\<close> and \<open>\<pi>/2\<close>.
\<close>

lemma toAzimuthDegrees_range:
  assumes "- 360 \<le> js_rem (headingRad * 180 / pi) 360 + declination"
  shows "0 \<le> toAzimuthDegrees headingRad declination
         \<and> toAzimuthDegrees headingRad declination < 360"
  using assms js_rem_nonneg [of "js_rem (headingRad * 180 / pi) 360 + declination + 360" 360]
  by (simp add: toAzimuthDegrees_def Let_def)

lemma toAltitudeDegrees_range:
  assumes "- pi / 2 \<le> pitchRad" "pitchRad \<le> pi / 2"
  shows "- 90 \<le> toAltitudeDegrees pitchRad \<and> toAltitudeDegrees pitchRad \<le> 90"
  using assms by (simp add: toAltitudeDegrees_def field_simps)

text \<open>
  Claim C8 asks for an azimuth in \<open>[0, 360)\<close> for every heading and every declination.
  The remainder keeps the sign of a negative sum: for a heading of \<open>-\<pi>/2\<close> (west) and a
  declination of -350 (a true heading of 5 degrees less a magnetic heading of 355) the
  azimuth is -80.
\<close>

theorem azimuth_negative_for_large_negative_declination:
  "toAzimuthDegrees (- pi / 2) (- 350) = - 80"
proof -
  have "js_rem (- pi / 2 * 180 / pi) 360 = - 90"
    using js_rem_small [of "- 90" 360] by simp
  moreover have "js_rem (- 90 + - 350 + 360) 360 = - 80"
    using js_rem_small [of "- 80" 360] by simp
  ultimately show ?thesis
    by (simp add: toAzimuthDegrees_def)
qed

section \<open>Rounding to a double\<close>

text \<open>The exponent of a number of magnitude at least 1, and the rounding in its binade.\<close>

lemma exponentUp_binade:
  "2 ^ k \<le> a \<Longrightarrow> a < 2 ^ Suc k \<Longrightarrow> k \<le> n \<Longrightarrow> exponentUp n a = int k"
proof (induction n arbitrary: a k)
  case 0
  then show ?case by (simp add: exponentUp.simps)
next
  case (Suc n)
  show ?case
  proof (cases k)
    case 0
    with Suc.prems show ?thesis by (simp add: exponentUp.simps)
  next
    case (Suc j)
    have pos: "(1::real) \<le> 2 ^ j" by simp
    from Suc Suc.prems(1) have "2 * 2 ^ j \<le> a" by simp
    with pos have big: "\<not> a < 2" by linarith
    from Suc Suc.prems have "2 ^ j \<le> a / 2" "a / 2 < 2 ^ Suc j" "j \<le> n"
      by simp_all
    then have "exponentUp n (a / 2) = int j"
      by (rule Suc.IH)
    with big Suc show ?thesis
      by (simp add: exponentUp.simps [of "Suc n"])
  qed
qed

lemma round_double_in_binade:
  assumes "2 ^ k \<le> \<bar>x\<bar>" "\<bar>x\<bar> < 2 ^ Suc k" "k \<le> 1023"
  shows "round_double x =
           sgn x * of_int (roundHalfEven (\<bar>x\<bar> / 2 powi (int k - 52))) * 2 powi (int k - 52)"
proof -
  have "(1::real) \<le> 2 ^ k" by simp
  with assms(1) have one: "1 \<le> \<bar>x\<bar>" by linarith
  then have nz: "x \<noteq> 0" by auto
  from assms one have "exponent \<bar>x\<bar> = int k"
    by (simp add: exponent_def exponentUp_binade)
  with nz show ?thesis
    by (simp add: round_double_def Let_def)
qed

text \<open>A check of the rounding below 1: the double of one tenth.\<close>

lemma exponent_tenth: "exponent (1 / 10) = - 4"
  by (simp add: exponent_def exponentDown.simps)

lemma round_double_tenth: "round_double (1 / 10) = 3602879701896397 / 36028797018963968"
  by (simp add: round_double_def exponent_tenth roundHalfEven_def)

text \<open>
  Bounds on the exponent and on the rounded significand, the sign of the rounding, and
  what follows for bounds on a rounded number.
\<close>

lemma exponentDown_le: "exponentDown n a \<le> 0"
proof (induction n arbitrary: a)
  case 0
  then show ?case by (simp add: exponentDown.simps)
next
  case (Suc n)
  have "exponentDown n (2 * a) \<le> 0" by (rule Suc.IH)
  then show ?case
    by (simp add: exponentDown.simps [of "Suc n"])
qed

lemma exponentUp_le: "a < 2 ^ k \<Longrightarrow> exponentUp n a \<le> int k"
proof (induction n arbitrary: a k)
  case 0
  then show ?case by (simp add: exponentUp.simps)
next
  case (Suc n)
  show ?case
  proof (cases "a < 2")
    case True
    then show ?thesis by (simp add: exponentUp.simps [of "Suc n"])
  next
    case False
    with Suc.prems obtain j where k: "k = Suc j"
      by (cases k) auto
    with Suc.prems have "a / 2 < 2 ^ j" by simp
    then have "exponentUp n (a / 2) \<le> int j" by (rule Suc.IH)
    with False k show ?thesis
      by (simp add: exponentUp.simps [of "Suc n"])
  qed
qed

lemma exponent_le: "a < 2 ^ k \<Longrightarrow> exponent a \<le> int k"
  using exponentDown_le [of 1022 a] exponentUp_le [of a k 1023]
  by (simp add: exponent_def)

lemma roundHalfEven_le: "q \<le> of_int M \<Longrightarrow> roundHalfEven q \<le> M"
proof -
  assume q: "q \<le> of_int M"
  then have fl: "\<lfloor>q\<rfloor> \<le> M" by (simp add: floor_le_iff)
  show ?thesis
  proof (cases "q - of_int \<lfloor>q\<rfloor> < 1 / 2")
    case True
    with fl show ?thesis by (simp add: roundHalfEven_def Let_def)
  next
    case False
    then have "of_int \<lfloor>q\<rfloor> < q" by linarith
    with q have "of_int \<lfloor>q\<rfloor> < (of_int M :: real)" by linarith
    then have "\<lfloor>q\<rfloor> + 1 \<le> M" by simp
    with fl show ?thesis by (simp add: roundHalfEven_def Let_def)
  qed
qed

lemma roundHalfEven_ge: "of_int M \<le> q \<Longrightarrow> M \<le> roundHalfEven q"
proof -
  assume "of_int M \<le> q"
  then have "M \<le> \<lfloor>q\<rfloor>" by (simp add: le_floor_iff)
  then show ?thesis by (simp add: roundHalfEven_def Let_def)
qed

lemma round_double_minus: "round_double (- x) = - round_double x"
  by (simp add: round_double_def Let_def)

lemma round_double_positive:
  assumes "0 < x"
  shows "round_double x = of_int (roundHalfEven (x / 2 powi (exponent x - 52))) * 2 powi (exponent x - 52)"
  using assms by (simp add: round_double_def Let_def)

lemma round_double_nonneg:
  assumes "0 \<le> x"
  shows "0 \<le> round_double x"
proof (cases "x = 0")
  case True
  then show ?thesis by (simp add: round_double_def)
next
  case False
  with assms have pos: "0 < x" by simp
  have u: "(0::real) < 2 powi (exponent x - 52)" by simp
  with pos have "of_int 0 \<le> x / 2 powi (exponent x - 52)" by simp
  then have "0 \<le> roundHalfEven (x / 2 powi (exponent x - 52))"
    by (rule roundHalfEven_ge)
  then have "0 \<le> real_of_int (roundHalfEven (x / 2 powi (exponent x - 52))) * 2 powi (exponent x - 52)"
    using u by (intro mult_nonneg_nonneg) simp_all
  with pos show ?thesis by (simp only: round_double_positive)
qed

lemma abs_round_double: "\<bar>round_double x\<bar> = round_double \<bar>x\<bar>"
proof (cases "0 \<le> x")
  case True
  then have "0 \<le> round_double x" by (rule round_double_nonneg)
  with True show ?thesis by simp
next
  case False
  then have "0 \<le> round_double (- x)" by (intro round_double_nonneg) simp
  with False show ?thesis
    by (simp add: round_double_minus)
qed

text \<open>A dyadic bound N / 2^j on a number below 2^k is kept by the rounding.\<close>

lemma scaled_dyadic:
  assumes "x < 2 ^ k" "int k + int j \<le> 52"
  obtains d :: nat where "(2::real) powi (exponent x - 52) = 1 / 2 ^ (d + j)"
proof -
  have "exponent x \<le> int k" using assms(1) by (rule exponent_le)
  with assms(2) have "0 \<le> 52 - exponent x - int j" by simp
  then obtain d where d: "int d = 52 - exponent x - int j"
    using nonneg_int_cases by metis
  then have "exponent x - 52 = - int (d + j)" by simp
  then have "(2::real) powi (exponent x - 52) = 2 powi (- int (d + j))"
    by (simp only:)
  also have "\<dots> = inverse (2 powi int (d + j))"
    by (rule power_int_minus)
  also have "\<dots> = 1 / 2 ^ (d + j)"
    by (simp only: power_int_of_nat inverse_eq_divide)
  finally show ?thesis by (rule that)
qed

lemma round_double_le:
  assumes "0 \<le> x" "x \<le> of_int N / 2 ^ j" "x < 2 ^ k" "int k + int j \<le> 52"
  shows "round_double x \<le> of_int N / 2 ^ j"
proof (cases "x = 0")
  case True
  with assms(2) show ?thesis by (simp add: round_double_def)
next
  case False
  with assms(1) have pos: "0 < x" by simp
  from assms(3,4) obtain d :: nat where u: "(2::real) powi (exponent x - 52) = 1 / 2 ^ (d + j)"
    by (rule scaled_dyadic)
  from assms(2) have "x * 2 ^ (d + j) \<le> (of_int N / 2 ^ j) * 2 ^ (d + j)"
    by (rule mult_right_mono) simp
  also have "(of_int N / 2 ^ j) * 2 ^ (d + j) = real_of_int (N * 2 ^ d)"
    by (simp add: power_add)
  finally have "roundHalfEven (x * 2 ^ (d + j)) \<le> N * 2 ^ d"
    by (rule roundHalfEven_le)
  then have "real_of_int (roundHalfEven (x * 2 ^ (d + j))) \<le> real_of_int (N * 2 ^ d)"
    by (simp only: of_int_le_iff)
  then have "real_of_int (roundHalfEven (x * 2 ^ (d + j))) / 2 ^ (d + j)
             \<le> real_of_int (N * 2 ^ d) / 2 ^ (d + j)"
    by (rule divide_right_mono) simp
  also have "real_of_int (N * 2 ^ d) / 2 ^ (d + j) = of_int N / 2 ^ j"
    by (simp add: power_add)
  finally show ?thesis
    using pos u by (simp add: round_double_positive)
qed

lemma round_double_ge:
  assumes "0 < x" "of_int N / 2 ^ j \<le> x" "x < 2 ^ k" "int k + int j \<le> 52"
  shows "of_int N / 2 ^ j \<le> round_double x"
proof -
  from assms(3,4) obtain d :: nat where u: "(2::real) powi (exponent x - 52) = 1 / 2 ^ (d + j)"
    by (rule scaled_dyadic)
  have "real_of_int (N * 2 ^ d) = (of_int N / 2 ^ j) * 2 ^ (d + j)"
    by (simp add: power_add)
  also from assms(2) have "(of_int N / 2 ^ j) * 2 ^ (d + j) \<le> x * 2 ^ (d + j)"
    by (rule mult_right_mono) simp
  finally have "N * 2 ^ d \<le> roundHalfEven (x * 2 ^ (d + j))"
    by (rule roundHalfEven_ge)
  then have "real_of_int (N * 2 ^ d) \<le> real_of_int (roundHalfEven (x * 2 ^ (d + j)))"
    by (simp only: of_int_le_iff)
  then have "real_of_int (N * 2 ^ d) / 2 ^ (d + j)
             \<le> real_of_int (roundHalfEven (x * 2 ^ (d + j))) / 2 ^ (d + j)"
    by (rule divide_right_mono) simp
  moreover have "real_of_int (N * 2 ^ d) / 2 ^ (d + j) = of_int N / 2 ^ j"
    by (simp add: power_add)
  ultimately show ?thesis
    using assms(1) u by (simp add: round_double_positive)
qed

lemma round_double_nonpos: "x \<le> 0 \<Longrightarrow> round_double x \<le> 0"
  using round_double_nonneg [of "- x"] by (simp add: round_double_minus)

text \<open>The threshold of the gate lies between 19/64 and 77/256.\<close>

lemma changeThreshold_bounds: "19 / 64 \<le> changeThreshold \<and> changeThreshold \<le> 77 / 256"
  using round_double_ge [of "3 / 10" 19 6 0] round_double_le [of "3 / 10" 77 8 0]
  by (simp add: changeThreshold_def)

section \<open>The hysteresis gate\<close>

text \<open>
  Claim C9. For azimuths \<open>a\<close> and \<open>b\<close> in \<open>[0, 360)\<close> the circular difference
  \<open>min(|a - b|, 360 - |a - b|)\<close> of the gate is the same in both directions and at most 180.
\<close>

theorem normalizedAzDiff_symmetric_bounded:
  assumes "0 \<le> a" "a < 360" "0 \<le> b" "b < 360"
  shows "normalizedAzDiff a b = normalizedAzDiff b a \<and> normalizedAzDiff a b \<le> 180"
proof
  have "double_sub b a = - double_sub a b"
    using round_double_minus [of "a - b"] by (simp add: double_sub_def)
  then show "normalizedAzDiff a b = normalizedAzDiff b a"
    by (simp add: normalizedAzDiff_def)
next
  let ?d = "\<bar>double_sub a b\<bar>"
  show "normalizedAzDiff a b \<le> 180"
  proof (cases "?d \<le> 180")
    case True
    then show ?thesis by (simp add: normalizedAzDiff_def Let_def)
  next
    case False
    have "round_double (360 - ?d) \<le> 180"
    proof (cases "360 - ?d \<le> 0")
      case True
      then have "round_double (360 - ?d) \<le> 0" by (rule round_double_nonpos)
      then show ?thesis by simp
    next
      case pos: False
      with False show ?thesis
        using round_double_le [of "360 - ?d" 180 0 8] by simp
    qed
    then show ?thesis by (simp add: normalizedAzDiff_def Let_def double_sub_def)
  qed
qed

theorem normalizedAzDiff_symmetric_bounded_witness:
  "(0::real) \<le> 350 \<and> (350::real) < 360 \<and> (0::real) \<le> 10 \<and> (10::real) < 360
   \<and> normalizedAzDiff 350 10 = normalizedAzDiff 10 350 \<and> normalizedAzDiff 350 10 \<le> 180
   \<and> normalizedAzDiff 350 10 = 20"
proof -
  have "round_double 340 = 340" "round_double 20 = 20"
    by (simp_all add: round_double_in_binade [where k = 8] round_double_in_binade [where k = 4]
          roundHalfEven_def)
  then have "normalizedAzDiff 350 10 = 20"
    by (simp add: normalizedAzDiff_def double_sub_def)
  with normalizedAzDiff_symmetric_bounded [of 350 10] show ?thesis
    by simp
qed

text \<open>
  \<open>tryFuse\<close> does nothing until each sensor has delivered a reading; after that, what it
  hands to \<open>setAzAlt\<close> is decided by \<open>shouldUpdateOrientation\<close> on the two filtered
  values, against the pair published last.
\<close>

lemma tryFuse_waits:
  "accel s = None \<or> gyro s = None \<or> mag s = None
    \<Longrightarrow> tryFuse update getEulerAngles declination s = (s, None)"
  by (auto simp: tryFuse_def split: option.splits)

lemma tryFuse_publishes:
  fixes s :: "'f app_state" and update :: "'f \<Rightarrow> vec3 \<Rightarrow> vec3 \<Rightarrow> vec3 \<Rightarrow> 'f"
    and getEulerAngles :: "'f \<Rightarrow> euler" and declination :: real and a g m :: vec3
  defines "angles \<equiv> getEulerAngles (update (madgwick s) (remap g) (remap a) (remap m))"
  defines "filteredAz \<equiv> fst (applyMovingAverage (toAzimuthDegrees (heading angles) declination)
                              (azimuth (sensorHistory s)) (windowSize (sensorHistory s)))"
  defines "filteredAlt \<equiv> fst (applyMovingAverage (toAltitudeDegrees (pitch angles))
                               (altitude (sensorHistory s)) (windowSize (sensorHistory s)))"
  assumes "accel s = Some a" "gyro s = Some g" "mag s = Some m"
  shows "snd (tryFuse update getEulerAngles declination s) =
           (if shouldUpdateOrientation (previousAzAlt s) filteredAz filteredAlt
            then Some \<lparr>az = filteredAz, alt = filteredAlt\<rparr> else None)"
  using assms(4-6) unfolding angles_def filteredAz_def filteredAlt_def
  by (simp add: tryFuse_def publishIfChanged_def Let_def split_beta)

text \<open>
  The computed differences away from the threshold: an exact difference of at most 0.29
  is computed as at most the threshold, one of at least 0.31 as more than the threshold,
  on the circle as well.
\<close>

lemma abs_double_sub: "\<bar>double_sub a b\<bar> = round_double \<bar>a - b\<bar>"
  by (simp add: double_sub_def abs_round_double)

lemma small_difference_below_threshold:
  assumes "\<bar>a - b\<bar> \<le> 0.29"
  shows "\<bar>double_sub a b\<bar> \<le> changeThreshold"
proof -
  have "round_double \<bar>a - b\<bar> \<le> of_int 19 / 2 ^ 6"
    using assms by (intro round_double_le [where k = 0]) simp_all
  with changeThreshold_bounds show ?thesis
    by (simp add: abs_double_sub)
qed

lemma large_difference_above_threshold:
  assumes "0.31 \<le> \<bar>a - b\<bar>" "\<bar>a - b\<bar> \<le> 360"
  shows "39 / 128 \<le> \<bar>double_sub a b\<bar>"
proof -
  have "of_int 39 / 2 ^ 7 \<le> round_double \<bar>a - b\<bar>"
    using assms by (intro round_double_ge [where k = 9]) auto
  then show ?thesis
    by (simp add: abs_double_sub)
qed

lemma normalizedAzDiff_small:
  assumes "\<bar>a - b\<bar> \<le> 0.29 \<or> (359.71 \<le> \<bar>a - b\<bar> \<and> \<bar>a - b\<bar> \<le> 360)"
  shows "normalizedAzDiff a b \<le> changeThreshold"
  using assms
proof
  assume "\<bar>a - b\<bar> \<le> 0.29"
  then have "\<bar>double_sub a b\<bar> \<le> changeThreshold"
    by (rule small_difference_below_threshold)
  then show ?thesis by (simp add: normalizedAzDiff_def Let_def min_le_iff_disj)
next
  assume far: "359.71 \<le> \<bar>a - b\<bar> \<and> \<bar>a - b\<bar> \<le> 360"
  let ?d = "\<bar>double_sub a b\<bar>"
  have "of_int 23021 / 2 ^ 6 \<le> round_double \<bar>a - b\<bar>"
    using far by (intro round_double_ge [where k = 9]) auto
  then have d: "360 - ?d \<le> 19 / 64"
    by (simp add: abs_double_sub)
  have "round_double (360 - ?d) \<le> 19 / 64"
  proof (cases "360 - ?d \<le> 0")
    case True
    then have "round_double (360 - ?d) \<le> 0" by (rule round_double_nonpos)
    then show ?thesis by simp
  next
    case False
    with d have "round_double (360 - ?d) \<le> of_int 19 / 2 ^ 6"
      by (intro round_double_le [where k = 0]) simp_all
    then show ?thesis by simp
  qed
  with changeThreshold_bounds have "double_sub 360 ?d \<le> changeThreshold"
    by (simp add: double_sub_def)
  then show ?thesis
    by (simp add: normalizedAzDiff_def Let_def min_le_iff_disj)
qed

lemma normalizedAzDiff_large:
  assumes "0.31 \<le> \<bar>a - b\<bar>" "\<bar>a - b\<bar> \<le> 359.69"
  shows "changeThreshold < normalizedAzDiff a b"
proof -
  let ?d = "\<bar>double_sub a b\<bar>"
  have lo: "39 / 128 \<le> ?d"
    using assms by (intro large_difference_above_threshold) simp_all
  have "round_double \<bar>a - b\<bar> \<le> of_int 46041 / 2 ^ 7"
    using assms by (intro round_double_le [where k = 9]) simp_all
  then have hi: "?d \<le> 46041 / 128"
    by (simp add: abs_double_sub)
  then have "of_int 39 / 2 ^ 7 \<le> round_double (360 - ?d)"
    by (intro round_double_ge [where k = 9]) simp_all
  with changeThreshold_bounds have "changeThreshold < double_sub 360 ?d"
    by (simp add: double_sub_def)
  moreover from lo changeThreshold_bounds have "changeThreshold < ?d"
    by simp
  ultimately show ?thesis
    by (simp add: normalizedAzDiff_def Let_def)
qed

text \<open>
  Claim C5, as it holds. For every pair published last (\<open>previousAzAlt\<close>) and every new
  filtered pair, \<open>setAzAlt\<close> is called if and only if the circular azimuth difference as it
  is computed in doubles, \<open>min(|daz|, 360 - |daz|)\<close> with each subtraction rounded, exceeds
  the double 0.3, or the computed altitude difference does; it is then called with the
  new pair, which becomes the pair published last, and otherwise the state is left as it
  is. A pair whose exact differences are at most 0.29 in both channels (the azimuth on the
  circle), so one that differs by 0.2, is not published; a pair whose exact difference is
  at least 0.31 in a channel (the azimuth at most 359.69), so one that differs by 0.4, is.
\<close>

theorem publish_iff_beyond_threshold:
  "(snd (publishIfChanged s newAz newAlt) \<noteq> None)
     = (round_double 0.3 < min \<bar>double_sub newAz (az (previousAzAlt s))\<bar>
                              (double_sub 360 \<bar>double_sub newAz (az (previousAzAlt s))\<bar>)
        \<or> round_double 0.3 < \<bar>double_sub newAlt (alt (previousAzAlt s))\<bar>)
   \<and> (snd (publishIfChanged s newAz newAlt) \<noteq> None \<longrightarrow>
        snd (publishIfChanged s newAz newAlt) = Some \<lparr>az = newAz, alt = newAlt\<rparr>
        \<and> azAlt (fst (publishIfChanged s newAz newAlt)) = \<lparr>az = newAz, alt = newAlt\<rparr>
        \<and> previousAzAlt (fst (publishIfChanged s newAz newAlt)) = \<lparr>az = newAz, alt = newAlt\<rparr>)
   \<and> (snd (publishIfChanged s newAz newAlt) = None \<longrightarrow> fst (publishIfChanged s newAz newAlt) = s)
   \<and> ((\<bar>newAz - az (previousAzAlt s)\<bar> \<le> 0.29
         \<or> (359.71 \<le> \<bar>newAz - az (previousAzAlt s)\<bar> \<and> \<bar>newAz - az (previousAzAlt s)\<bar> \<le> 360))
        \<and> \<bar>newAlt - alt (previousAzAlt s)\<bar> \<le> 0.29
        \<longrightarrow> snd (publishIfChanged s newAz newAlt) = None)
   \<and> ((0.31 \<le> \<bar>newAz - az (previousAzAlt s)\<bar> \<and> \<bar>newAz - az (previousAzAlt s)\<bar> \<le> 359.69)
        \<or> (0.31 \<le> \<bar>newAlt - alt (previousAzAlt s)\<bar> \<and> \<bar>newAlt - alt (previousAzAlt s)\<bar> \<le> 360)
        \<longrightarrow> snd (publishIfChanged s newAz newAlt) \<noteq> None)"
proof (intro conjI impI)
  show "(snd (publishIfChanged s newAz newAlt) \<noteq> None)
     = (round_double 0.3 < min \<bar>double_sub newAz (az (previousAzAlt s))\<bar>
                              (double_sub 360 \<bar>double_sub newAz (az (previousAzAlt s))\<bar>)
        \<or> round_double 0.3 < \<bar>double_sub newAlt (alt (previousAzAlt s))\<bar>)"
    by (simp add: publishIfChanged_def shouldUpdateOrientation_def normalizedAzDiff_def
          changeThreshold_def Let_def)
next
  assume "snd (publishIfChanged s newAz newAlt) \<noteq> None"
  then show "snd (publishIfChanged s newAz newAlt) = Some \<lparr>az = newAz, alt = newAlt\<rparr>"
    and "azAlt (fst (publishIfChanged s newAz newAlt)) = \<lparr>az = newAz, alt = newAlt\<rparr>"
    and "previousAzAlt (fst (publishIfChanged s newAz newAlt)) = \<lparr>az = newAz, alt = newAlt\<rparr>"
    by (simp_all add: publishIfChanged_def split: if_splits)
next
  assume "snd (publishIfChanged s newAz newAlt) = None"
  then show "fst (publishIfChanged s newAz newAlt) = s"
    by (simp add: publishIfChanged_def split: if_splits)
next
  assume small: "(\<bar>newAz - az (previousAzAlt s)\<bar> \<le> 0.29
         \<or> (359.71 \<le> \<bar>newAz - az (previousAzAlt s)\<bar> \<and> \<bar>newAz - az (previousAzAlt s)\<bar> \<le> 360))
        \<and> \<bar>newAlt - alt (previousAzAlt s)\<bar> \<le> 0.29"
  then have "normalizedAzDiff newAz (az (previousAzAlt s)) \<le> changeThreshold"
    by (intro normalizedAzDiff_small) simp
  moreover from small have "\<bar>double_sub newAlt (alt (previousAzAlt s))\<bar> \<le> changeThreshold"
    by (intro small_difference_below_threshold) simp
  ultimately show "snd (publishIfChanged s newAz newAlt) = None"
    by (simp add: publishIfChanged_def shouldUpdateOrientation_def Let_def)
next
  assume "(0.31 \<le> \<bar>newAz - az (previousAzAlt s)\<bar> \<and> \<bar>newAz - az (previousAzAlt s)\<bar> \<le> 359.69)
        \<or> (0.31 \<le> \<bar>newAlt - alt (previousAzAlt s)\<bar> \<and> \<bar>newAlt - alt (previousAzAlt s)\<bar> \<le> 360)"
  then have "shouldUpdateOrientation (previousAzAlt s) newAz newAlt"
  proof
    assume "0.31 \<le> \<bar>newAz - az (previousAzAlt s)\<bar> \<and> \<bar>newAz - az (previousAzAlt s)\<bar> \<le> 359.69"
    then have "changeThreshold < normalizedAzDiff newAz (az (previousAzAlt s))"
      by (intro normalizedAzDiff_large) simp_all
    then show ?thesis by (simp add: shouldUpdateOrientation_def Let_def)
  next
    assume "0.31 \<le> \<bar>newAlt - alt (previousAzAlt s)\<bar> \<and> \<bar>newAlt - alt (previousAzAlt s)\<bar> \<le> 360"
    then have "39 / 128 \<le> \<bar>double_sub newAlt (alt (previousAzAlt s))\<bar>"
      by (intro large_difference_above_threshold) simp_all
    with changeThreshold_bounds show ?thesis
      by (simp add: shouldUpdateOrientation_def Let_def)
  qed
  then show "snd (publishIfChanged s newAz newAlt) \<noteq> None"
    by (simp add: publishIfChanged_def)
qed

text \<open>
  The theorem from the initial state, where the pair published last is \<open>(0, 0)\<close>, for the
  doubles of 0.2 and of 0.4, and across north: from an azimuth of 359.75 to one of 1/32.
\<close>

theorem publish_iff_beyond_threshold_witness:
  "snd (publishIfChanged initialState (3602879701896397 / 18014398509481984)
          (3602879701896397 / 18014398509481984)) = None
   \<and> snd (publishIfChanged initialState (3602879701896397 / 9007199254740992)
          (3602879701896397 / 9007199254740992))
       = Some \<lparr>az = 3602879701896397 / 9007199254740992, alt = 3602879701896397 / 9007199254740992\<rparr>
   \<and> snd (publishIfChanged (initialState\<lparr>previousAzAlt := \<lparr>az = 359.75, alt = 0\<rparr>\<rparr>) (1 / 32) 0) = None"
proof (intro conjI)
  let ?fifth = "3602879701896397 / 18014398509481984 :: real"
  have small: "(\<bar>?fifth - az (previousAzAlt initialState)\<bar> \<le> 0.29
         \<or> (359.71 \<le> \<bar>?fifth - az (previousAzAlt initialState)\<bar>
             \<and> \<bar>?fifth - az (previousAzAlt initialState)\<bar> \<le> 360))
        \<and> \<bar>?fifth - alt (previousAzAlt initialState)\<bar> \<le> 0.29"
    by (simp add: initialState_def)
  from publish_iff_beyond_threshold [of initialState ?fifth ?fifth] small
  show "snd (publishIfChanged initialState ?fifth ?fifth) = None"
    by blast
next
  let ?two_fifths = "3602879701896397 / 9007199254740992 :: real"
  have large: "(0.31 \<le> \<bar>?two_fifths - az (previousAzAlt initialState)\<bar>
          \<and> \<bar>?two_fifths - az (previousAzAlt initialState)\<bar> \<le> 359.69)
        \<or> (0.31 \<le> \<bar>?two_fifths - alt (previousAzAlt initialState)\<bar>
            \<and> \<bar>?two_fifths - alt (previousAzAlt initialState)\<bar> \<le> 360)"
    by (simp add: initialState_def)
  from publish_iff_beyond_threshold [of initialState ?two_fifths ?two_fifths] large
  show "snd (publishIfChanged initialState ?two_fifths ?two_fifths)
      = Some \<lparr>az = ?two_fifths, alt = ?two_fifths\<rparr>"
    by blast
next
  let ?s = "initialState\<lparr>previousAzAlt := \<lparr>az = 359.75, alt = 0\<rparr>\<rparr>"
  have north: "(\<bar>1 / 32 - az (previousAzAlt ?s)\<bar> \<le> 0.29
         \<or> (359.71 \<le> \<bar>1 / 32 - az (previousAzAlt ?s)\<bar> \<and> \<bar>1 / 32 - az (previousAzAlt ?s)\<bar> \<le> 360))
        \<and> \<bar>0 - alt (previousAzAlt ?s)\<bar> \<le> 0.29"
    by (simp add: initialState_def)
  from publish_iff_beyond_threshold [of ?s "1 / 32" 0] north
  show "snd (publishIfChanged ?s (1 / 32) 0) = None"
    by blast
qed

text \<open>The threshold and two computed differences next to it.\<close>

lemma exponent_near_threshold:
  "exponent (3 / 10) = - 2"
  "exponent (5277655813325 / 17592186044416) = - 2"
  "exponent (21617278211378381 / 72057594037927936) = - 2"
  by (simp_all add: exponent_def exponentDown.simps)

lemma changeThreshold_value: "changeThreshold = 5404319552844595 / 18014398509481984"
  by (simp add: changeThreshold_def round_double_def exponent_near_threshold roundHalfEven_def)

lemma round_double_near_threshold:
  "round_double (5277655813325 / 17592186044416) = 5277655813325 / 17592186044416"
  "round_double (21617278211378381 / 72057594037927936) = 5404319552844595 / 18014398509481984"
  by (simp_all add: round_double_def exponent_near_threshold roundHalfEven_def)

text \<open>
  Against claim C5 as it is written (the exact differences against 0.3). From the azimuth
  359.8 to the azimuth 0.1, as doubles, the exact circular difference is below 0.3, the
  computed one is \<open>5277655813325 / 2^44\<close> (0.30000000000001137), and the pair is
  published. From the altitude -0.05 to the altitude 0.25 the exact difference is above
  0.3, the computed one is the double 0.3, and the pair is not published.
\<close>

theorem gate_follows_rounded_difference:
  "snd (publishIfChanged
          (initialState\<lparr>previousAzAlt := \<lparr>az = 6329668538780877 / 17592186044416, alt = 0\<rparr>\<rparr>)
          (3602879701896397 / 36028797018963968) 0)
     = Some \<lparr>az = 3602879701896397 / 36028797018963968, alt = 0\<rparr>
   \<and> \<not> (0.3 < min \<bar>(3602879701896397 / 36028797018963968 :: real) - 6329668538780877 / 17592186044416\<bar>
                  (360 - \<bar>3602879701896397 / 36028797018963968 - 6329668538780877 / 17592186044416\<bar>)
         \<or> 0.3 < \<bar>(0::real) - 0\<bar>)
   \<and> snd (publishIfChanged
          (initialState\<lparr>previousAzAlt := \<lparr>az = 0, alt = - (3602879701896397 / 72057594037927936)\<rparr>\<rparr>)
          0 (1 / 4))
     = None
   \<and> (0.3 < min \<bar>(0::real) - 0\<bar> (360 - \<bar>0 - 0\<bar>)
       \<or> 0.3 < \<bar>(1 / 4 :: real) - (- (3602879701896397 / 72057594037927936))\<bar>)"
proof (intro conjI)
  have az: "double_sub (3602879701896397 / 36028797018963968) (6329668538780877 / 17592186044416)
      = - (6327909320176435 / 17592186044416)"
    by (simp add: double_sub_def round_double_in_binade [where k = 8] roundHalfEven_def)
  have turn: "double_sub 360 (6327909320176435 / 17592186044416) = 5277655813325 / 17592186044416"
    by (simp add: double_sub_def round_double_near_threshold)
  from az turn have "normalizedAzDiff (3602879701896397 / 36028797018963968)
      (6329668538780877 / 17592186044416) = 5277655813325 / 17592186044416"
    by (simp add: normalizedAzDiff_def)
  then show "snd (publishIfChanged
          (initialState\<lparr>previousAzAlt := \<lparr>az = 6329668538780877 / 17592186044416, alt = 0\<rparr>\<rparr>)
          (3602879701896397 / 36028797018963968) 0)
     = Some \<lparr>az = 3602879701896397 / 36028797018963968, alt = 0\<rparr>"
    by (simp add: publishIfChanged_def shouldUpdateOrientation_def changeThreshold_value
          initialState_def)
next
  show "\<not> (0.3 < min \<bar>(3602879701896397 / 36028797018963968 :: real) - 6329668538780877 / 17592186044416\<bar>
                  (360 - \<bar>3602879701896397 / 36028797018963968 - 6329668538780877 / 17592186044416\<bar>)
         \<or> 0.3 < \<bar>(0::real) - 0\<bar>)"
    by simp
next
  have zero: "double_sub 0 0 = 0"
    by (simp add: double_sub_def round_double_def)
  then have az: "normalizedAzDiff 0 0 \<le> 0"
    by (simp add: normalizedAzDiff_def min_le_iff_disj)
  have alt: "double_sub (1 / 4) (- (3602879701896397 / 72057594037927936))
      = 5404319552844595 / 18014398509481984"
    by (simp add: double_sub_def round_double_near_threshold)
  from az alt show "snd (publishIfChanged
          (initialState\<lparr>previousAzAlt := \<lparr>az = 0, alt = - (3602879701896397 / 72057594037927936)\<rparr>\<rparr>)
          0 (1 / 4))
     = None"
    by (simp add: publishIfChanged_def shouldUpdateOrientation_def changeThreshold_value
          initialState_def)
next
  show "0.3 < min \<bar>(0::real) - 0\<bar> (360 - \<bar>0 - 0\<bar>)
       \<or> 0.3 < \<bar>(1 / 4 :: real) - (- (3602879701896397 / 72057594037927936))\<bar>"
    by simp
qed


section \<open>The direction\<close>

text \<open>
  Claim C7, as it holds. For a target and a current right ascension in \<open>[0, 24)\<close> hours,
  \<open>calculateDirection\<close> returns a result whose \<open>raDiff\<close> lies in the closed interval
  \<open>[-180, 180]\<close> and is the difference in degrees, or that difference less 360, or that
  difference plus 360.
\<close>

theorem raDiff_within_half_turn:
  assumes "0 \<le> c_ra target" "c_ra target < 24" "0 \<le> ra current" "ra current < 24"
  shows "\<exists>d. calculateDirection (Some target) (Some current) = Some d
            \<and> - 180 \<le> raDiff d \<and> raDiff d \<le> 180
            \<and> (raDiff d = c_ra target * 15 - ra current * 15
                \<or> raDiff d = c_ra target * 15 - ra current * 15 - 360
                \<or> raDiff d = c_ra target * 15 - ra current * 15 + 360)"
  using assms by (simp add: calculateDirection_def correctRaDiff_def Let_def)

text \<open>The theorem for Vega as the target, from a right ascension of 2 hours.\<close>

theorem raDiff_within_half_turn_witness:
  "0 \<le> c_ra (starResult vegaRow) \<and> c_ra (starResult vegaRow) < 24
   \<and> map_option raDiff (calculateDirection (Some (starResult vegaRow)) (Some \<lparr>ra = 2, dec = 0\<rparr>))
       = Some (- 110.7654)"
proof -
  have target: "0 \<le> c_ra (starResult vegaRow)" "c_ra (starResult vegaRow) < 24"
    by (simp_all add: starResult_def vegaRow_def)
  have current: "0 \<le> ra \<lparr>ra = 2, dec = 0\<rparr>" "ra \<lparr>ra = 2, dec = 0\<rparr> < 24"
    by simp_all
  from raDiff_within_half_turn [OF target current]
  obtain d where d: "calculateDirection (Some (starResult vegaRow)) (Some \<lparr>ra = 2, dec = 0\<rparr>) = Some d"
    and range: "- 180 \<le> raDiff d" "raDiff d \<le> 180"
    and shape: "raDiff d = c_ra (starResult vegaRow) * 15 - ra \<lparr>ra = 2, dec = 0\<rparr> * 15
                \<or> raDiff d = c_ra (starResult vegaRow) * 15 - ra \<lparr>ra = 2, dec = 0\<rparr> * 15 - 360
                \<or> raDiff d = c_ra (starResult vegaRow) * 15 - ra \<lparr>ra = 2, dec = 0\<rparr> * 15 + 360"
    by blast
  from range shape have "raDiff d = - 110.7654"
    by (simp add: starResult_def vegaRow_def)
  with d target show ?thesis by simp
qed

text \<open>
  Against claim C7 as it is written (the interval open at -180): the target at 0 hours
  seen from 12 hours gives a difference of exactly -180, which neither correction changes.
\<close>

theorem raDiff_reaches_minus_180:
  "map_option raDiff (calculateDirection (Some (starResult sunRow)) (Some \<lparr>ra = 12, dec = 0\<rparr>))
    = Some (- 180)"
  by (simp add: calculateDirection_def correctRaDiff_def starResult_def sunRow_def Let_def)

section \<open>The moving average\<close>

lemma applyMovingAverage_output:
  "fst (applyMovingAverage v h w) =
     double_div (foldl double_add 0 (snd (applyMovingAverage v h w)))
       (real (length (snd (applyMovingAverage v h w))))"
  by (simp add: applyMovingAverage_def Let_def)

lemma applyMovingAverage_buffer:
  "snd (applyMovingAverage v h w) = (if w < Suc (length h) then tl (h @ [v]) else h @ [v])"
  by (simp add: applyMovingAverage_def Let_def)

lemma applyMovingAverage_buffer_length:
  "length h \<le> w \<Longrightarrow> length (snd (applyMovingAverage v h w)) \<le> w"
  by (simp add: applyMovingAverage_buffer)

lemma feed_buffer_length:
  "length h \<le> w \<Longrightarrow> length (snd (feed vs h w)) \<le> w"
proof (induction vs arbitrary: h)
  case Nil
  then show ?case by simp
next
  case (Cons v vs)
  from Cons.prems have "length (snd (applyMovingAverage v h w)) \<le> w"
    by (rule applyMovingAverage_buffer_length)
  then have "length (snd (feed vs (snd (applyMovingAverage v h w)) w)) \<le> w"
    by (rule Cons.IH)
  then show ?case
    by (simp add: split_beta Let_def)
qed

text \<open>The buffer after a stream is the end of what was in it followed by the stream.\<close>

lemma feed_buffer:
  "length h \<le> w \<Longrightarrow> 0 < w \<Longrightarrow> snd (feed vs h w) = drop (length h + length vs - w) (h @ vs)"
proof (induction vs arbitrary: h)
  case Nil
  then show ?case by simp
next
  case (Cons v vs)
  let ?h = "snd (applyMovingAverage v h w)"
  have len: "length ?h \<le> w"
    using Cons.prems(1) by (rule applyMovingAverage_buffer_length)
  have step: "snd (feed (v # vs) h w) = snd (feed vs ?h w)"
    by (simp add: split_beta Let_def)
  have ih: "snd (feed vs ?h w) = drop (length ?h + length vs - w) (?h @ vs)"
    using len Cons.prems(2) by (rule Cons.IH)
  show ?case
  proof (cases "length h = w")
    case True
    with Cons.prems(2) have ne: "h \<noteq> []" by auto
    with True Cons.prems(2) have h: "?h = tl h @ [v]" "length ?h = w"
      by (simp_all add: applyMovingAverage_buffer)
    have "drop (length vs) (tl h @ v # vs) = drop (Suc (length vs)) (h @ v # vs)"
      using ne by (cases h) simp_all
    with step ih h True show ?thesis by simp
  next
    case False
    with Cons.prems(1) have "length h < w" by simp
    then have h: "?h = h @ [v]"
      by (simp add: applyMovingAverage_buffer)
    with step ih show ?thesis by simp
  qed
qed

text \<open>The last output is the mean of the last buffer.\<close>

lemma feed_last_output:
  "vs \<noteq> [] \<Longrightarrow>
     last (fst (feed vs h w)) =
       double_div (foldl double_add 0 (snd (feed vs h w))) (real (length (snd (feed vs h w))))"
proof (induction vs arbitrary: h)
  case Nil
  then show ?case by simp
next
  case (Cons v vs)
  show ?case
  proof (cases "vs = []")
    case True
    then show ?thesis
      by (simp add: split_beta Let_def applyMovingAverage_output)
  next
    case False
    then have ne: "fst (feed vs (snd (applyMovingAverage v h w)) w) \<noteq> []"
      by (cases vs) (simp_all add: split_beta Let_def)
    from False have "last (fst (feed vs (snd (applyMovingAverage v h w)) w)) =
        double_div (foldl double_add 0 (snd (feed vs (snd (applyMovingAverage v h w)) w)))
          (real (length (snd (feed vs (snd (applyMovingAverage v h w)) w))))"
      by (rule Cons.IH)
    with ne show ?thesis
      by (simp add: split_beta Let_def)
  qed
qed

lemma constant_feed_buffer:
  assumes "length h \<le> 5" "5 \<le> n"
  shows "snd (feed (replicate n V) h 5) = replicate 5 V"
proof -
  have "snd (feed (replicate n V) h 5) = drop (length h + n - 5) (h @ replicate n V)"
    using assms(1) by (simp add: feed_buffer)
  also have "\<dots> = drop (n - 5) (replicate n V)"
    using assms(2) by simp
  also have "\<dots> = replicate 5 V"
    using assms(2) by simp
  finally show ?thesis .
qed

lemma constant_feed_output:
  assumes "length h \<le> 5" "5 \<le> n"
  shows "last (fst (feed (replicate n V) h 5)) = double_div (foldl double_add 0 [V, V, V, V, V]) 5"
proof -
  from assms(2) have "replicate n V \<noteq> []" by auto
  then have "last (fst (feed (replicate n V) h 5)) =
       double_div (foldl double_add 0 (snd (feed (replicate n V) h 5)))
         (real (length (snd (feed (replicate n V) h 5))))"
    by (rule feed_last_output)
  also have "snd (feed (replicate n V) h 5) = replicate 5 V"
    using assms by (rule constant_feed_buffer)
  finally show ?thesis
    by (simp add: numeral_eq_Suc)
qed

text \<open>
  Claim C6, as it holds. From a buffer of at most 5 elements, after a constant stream of
  \<open>V\<close> of length at least 5 the buffer is five times \<open>V\<close>, and the output is the rounded
  quotient by 5 of the rounded sum of five times \<open>V\<close>. It is exactly \<open>V\<close> when \<open>V\<close>, \<open>2V\<close>,
  \<open>3V\<close>, \<open>4V\<close> and \<open>5V\<close> are doubles (and \<open>5V\<close> is below the overflow), so that no addition
  rounds. After any stream the buffer holds at most 5 elements.
\<close>

theorem moving_average_of_constant:
  assumes "length history \<le> 5" "5 \<le> n"
  shows "snd (feed (replicate n V) history 5) = [V, V, V, V, V]
       \<and> last (fst (feed (replicate n V) history 5))
           = double_div (foldl double_add 0 [V, V, V, V, V]) 5
       \<and> (round_double V = V \<and> round_double (2 * V) = 2 * V \<and> round_double (3 * V) = 3 * V
           \<and> round_double (4 * V) = 4 * V \<and> round_double (5 * V) = 5 * V \<and> \<bar>5 * V\<bar> < 2 ^ 1024
          \<longrightarrow> last (fst (feed (replicate n V) history 5)) = V)
       \<and> length (snd (feed vs history 5)) \<le> 5"
proof (intro conjI impI)
  show "snd (feed (replicate n V) history 5) = [V, V, V, V, V]"
    using constant_feed_buffer [OF assms] by (simp add: numeral_eq_Suc)
  show "last (fst (feed (replicate n V) history 5))
           = double_div (foldl double_add 0 [V, V, V, V, V]) 5"
    using assms by (rule constant_feed_output)
  show "length (snd (feed vs history 5)) \<le> 5"
    using assms(1) by (rule feed_buffer_length)
next
  assume exact: "round_double V = V \<and> round_double (2 * V) = 2 * V \<and> round_double (3 * V) = 3 * V
           \<and> round_double (4 * V) = 4 * V \<and> round_double (5 * V) = 5 * V \<and> \<bar>5 * V\<bar> < 2 ^ 1024"
  have "foldl double_add 0 [V, V, V, V, V] = 5 * V"
    using exact by (simp add: double_add_def)
  then have "double_div (foldl double_add 0 [V, V, V, V, V]) 5 = V"
    using exact by (simp add: double_div_def)
  then show "last (fst (feed (replicate n V) history 5)) = V"
    using constant_feed_output [OF assms] by simp
qed

text \<open>
  The theorem for six times 90 into a buffer that holds 10 and 20: the multiples of 90
  up to 450 are doubles, and the output is 90.
\<close>

theorem moving_average_of_constant_witness:
  "length [10, 20 :: real] \<le> 5 \<and> (5::nat) \<le> 6
   \<and> round_double 90 = 90 \<and> round_double (5 * 90) = 5 * 90
   \<and> snd (feed (replicate 6 90) [10, 20] 5) = [90, 90, 90, 90, 90]
   \<and> last (fst (feed (replicate 6 90) [10, 20] 5)) = 90"
proof -
  have len: "length [10, 20 :: real] \<le> 5" by simp
  have n: "(5::nat) \<le> 6" by simp
  have exact: "round_double 90 = 90" "round_double (2 * 90) = 2 * 90"
    "round_double (3 * 90) = 3 * 90" "round_double (4 * 90) = 4 * 90"
    "round_double (5 * 90) = 5 * 90"
    by (simp_all add: round_double_in_binade [where k = 6] round_double_in_binade [where k = 7]
          round_double_in_binade [where k = 8] roundHalfEven_def)
  have bound: "\<bar>5 * 90 :: real\<bar> < 2 ^ 1024" by simp
  from moving_average_of_constant [OF len n, of 90 "[]"] exact bound
  have "snd (feed (replicate 6 90) [10, 20] 5) = [90, 90, 90, 90, 90]
        \<and> last (fst (feed (replicate 6 90) [10, 20] 5)) = 90"
    by blast
  with len n exact show ?thesis by simp
qed

text \<open>
  Against claim C6 as it is written (the output is exactly \<open>V\<close> for every \<open>V\<close>): for the
  double \<open>V = 1877550034529179 / 2^43\<close>, which prints as 213.45272608973335, the sum of
  five times \<open>V\<close> is a tie and rounds to the even neighbour, and the filter started on an
  empty buffer returns \<open>7510200138116717 / 2^45\<close> after five values, the double above \<open>V\<close>.
\<close>

theorem moving_average_of_constant_rounds:
  "last (fst (feed (replicate 5 (1877550034529179 / 8796093022208)) [] 5))
     = 7510200138116717 / 35184372088832
   \<and> (7510200138116717 / 35184372088832 :: real) - 1877550034529179 / 8796093022208
     = 1 / 35184372088832"
proof -
  have "last (fst (feed (replicate 5 (1877550034529179 / 8796093022208)) [] 5))
      = double_div (foldl double_add 0 (replicate 5 (1877550034529179 / 8796093022208))) 5"
    using constant_feed_output [of "[]" 5 "1877550034529179 / 8796093022208"]
    by (simp add: numeral_eq_Suc)
  also have "\<dots> = 7510200138116717 / 35184372088832"
    by (simp add: numeral_eq_Suc double_add_def double_div_def roundHalfEven_def
          round_double_in_binade [where k = 7] round_double_in_binade [where k = 8]
          round_double_in_binade [where k = 9] round_double_in_binade [where k = 10])
  finally show ?thesis by simp
qed

end
